theory Spec2Isabelle
  imports Main
begin

section \<open>The Drive client as seen by \<open>utils/googleDrive\<close>\<close>

text \<open>
  The functions of \<open>utils/googleDrive\<close> (the scope guard \<open>isUnderDefaultFolder\<close>,
  \<open>findExistingFile\<close>, \<open>validateFolder\<close>, \<open>processFileUpload\<close>,
  \<open>deleteFolderContents\<close>) talk to Google Drive only through the functions they import
  from \<open>utils/oauth\<close>. Each of these either throws a JavaScript \<open>Error\<close> or resolves to a
  parsed value; here a throw is \<open>Inl (Error msg)\<close> and a resolved promise is \<open>Inr v\<close>.
  The remote service is a parameter of every function below: a record with one answer
  function per imported operation. Reads are answered from one snapshot of the remote
  store (a request runs alone and nothing is cached); the outcome of a deletion may
  depend on the deletions already attempted in the same request.
\<close>

datatype error = Error string

record GoogleDriveCredentials =
  clientId :: string
  clientSecret :: string
  refreshToken :: string

text \<open>\<open>TokenResponse\<close>: only \<open>access_token\<close> is read by the code modelled here.\<close>

record TokenResponse =
  access_token :: string

text \<open>\<open>DriveFileInfo\<close> (\<open>parents\<close> is optional in the schema).\<close>

record DriveFileInfo =
  id_info :: string
  name_info :: string
  mimeType_info :: string
  parents :: "string list option"

text \<open>\<open>DriveFile\<close>, an entry of a listing (\<open>mimeType\<close> is optional in the schema).\<close>

record DriveFile =
  id_file :: string
  name_file :: string
  mimeType_file :: "string option"

text \<open>The browser \<open>File\<close> handed to the upload: its name and its MIME type.\<close>

record File =
  name_of :: string
  type_of :: string

datatype http_method = POST | PATCH

text \<open>
  What \<open>uploadFile\<close> sends: the method, the id in the URL (none for a creation), and the
  metadata part (\<open>name\<close>, and \<open>parents\<close> for a creation only).
\<close>

record upload_request =
  req_method :: http_method
  req_target :: "string option"
  req_name :: string
  req_parents :: "string list option"
  req_content_type :: string

text \<open>
  The answer to the upload's \<open>fetch\<close>: the call (or the reading of its response)
  throws, or the response is not \<open>ok\<close> (with its text), or it is \<open>ok\<close>.
\<close>

datatype fetch_result = FetchThrows error | NotOk string | Ok

text \<open>
  The operations, in the order of the import list. \<open>getDriveFileInfo\<close> takes the file id,
  the access token and the \<open>fields\<close> string; \<open>listDriveFiles\<close> the parent folder id,
  the access token and \<open>fields\<close>; \<open>deleteDriveFile\<close> the ids whose deletion this
  request has already attempted, the file id and the access token.
\<close>

record DriveClient =
  refreshAccessToken :: "GoogleDriveCredentials \<Rightarrow> error + TokenResponse"
  getDriveFileInfo :: "string \<Rightarrow> string \<Rightarrow> string \<Rightarrow> error + DriveFileInfo"
  listDriveFiles :: "string \<Rightarrow> string \<Rightarrow> string \<Rightarrow> error + DriveFile list"
  deleteDriveFile :: "string list \<Rightarrow> string \<Rightarrow> string \<Rightarrow> error + unit"
  uploadFetch :: "upload_request \<Rightarrow> string \<Rightarrow> fetch_result"

text \<open>
  Every call that leaves the process is recorded, in order, so that "no call is made" and
  "exactly these calls are made" are statements about a value.
\<close>

datatype call =
    RefreshToken
  | GetFileInfo string string
  | ListFiles string string
  | DeleteFile string
  | Upload upload_request

section \<open>The folder scope guard\<close>

text \<open>
  The loop of \<open>isUnderDefaultFolder\<close> over \<open>data.parents\<close>:
  \<^verbatim>\<open>
    for (const parentId of data.parents) {
      if (await isUnderDefaultFolder(parentId, defaultFolderId, accessToken)) {
        return true
      }
    }
    return false
  \<close>
  with the recursive call as the parameter \<open>check\<close>. A check that does not return
  (\<open>None\<close>) stops the loop there.
\<close>

fun for_parents :: "(string \<Rightarrow> (bool \<times> call list) option) \<Rightarrow> string list \<Rightarrow> (bool \<times> call list) option" where
  "for_parents check [] = Some (False, [])"
| "for_parents check (parentId # rest) =
     (case check parentId of
        None \<Rightarrow> None
      | Some r \<Rightarrow>
          if fst r then Some (True, snd r)
          else (case for_parents check rest of
                  None \<Rightarrow> None
                | Some r' \<Rightarrow> Some (fst r', snd r @ snd r')))"

lemma for_parents_mono [partial_function_mono]:
  assumes "\<And>p. mono_option (\<lambda>f. F f p)"
  shows "mono_option (\<lambda>f. for_parents (\<lambda>p. F f p) ps)"
proof (induction ps)
  case Nil
  show ?case by (simp add: option.const_mono)
next
  case (Cons p ps)
  have "mono_option (\<lambda>f. Option.bind (F f p) (\<lambda>r. if fst r then Some (True, snd r)
          else Option.bind (for_parents (\<lambda>p. F f p) ps) (\<lambda>r'. Some (fst r', snd r @ snd r'))))"
    by (intro partial_function_mono assms Cons.IH)
  moreover have "(\<lambda>f. for_parents (\<lambda>p. F f p) (p # ps)) =
      (\<lambda>f. Option.bind (F f p) (\<lambda>r. if fst r then Some (True, snd r)
          else Option.bind (for_parents (\<lambda>p. F f p) ps) (\<lambda>r'. Some (fst r', snd r @ snd r'))))"
    by (auto simp: fun_eq_iff split: option.splits)
  ultimately show ?case by simp
qed

text \<open>
  \<open>isUnderDefaultFolder\<close>. The source has no bound on the recursion, so a run may go on
  forever: the value \<open>None\<close> is "does not return". The \<open>try\<close> covers the lookup and the
  loop; the only statement in it that can throw is the lookup
  (\<open>getDriveFileInfo(folderId, accessToken, 'parents')\<close>), and the \<open>catch\<close> returns
  \<open>false\<close>. The result is the boolean and the calls made.
\<close>

partial_function (option) isUnderDefaultFolder ::
  "DriveClient \<Rightarrow> string \<Rightarrow> string \<Rightarrow> string \<Rightarrow> (bool \<times> call list) option" where
  "isUnderDefaultFolder c folderId defaultFolderId accessToken =
     (if folderId = defaultFolderId then Some (True, [])
      else
        (case getDriveFileInfo c folderId accessToken ''parents'' of
           Inl e \<Rightarrow> Some (False, [GetFileInfo folderId ''parents''])
         | Inr data \<Rightarrow>
             (case parents data of
                None \<Rightarrow> Some (False, [GetFileInfo folderId ''parents''])
              | Some ps \<Rightarrow>
                  if length ps = 0 then Some (False, [GetFileInfo folderId ''parents''])
                  else
                    Option.bind
                      (for_parents (\<lambda>parentId. isUnderDefaultFolder c parentId defaultFolderId accessToken) ps)
                      (\<lambda>r. Some (fst r, GetFileInfo folderId ''parents'' # snd r)))))"


text \<open>
  The scope relation in the words of the specification: a folder is in scope iff it is
  the root, or one of the parents returned for it is in scope.
\<close>

inductive reaches :: "DriveClient \<Rightarrow> string \<Rightarrow> string \<Rightarrow> string \<Rightarrow> bool"
  for c :: DriveClient and accessToken :: string and rootId :: string where
  reaches_root: "reaches c accessToken rootId rootId"
| reaches_parent:
    "getDriveFileInfo c folderId accessToken ''parents'' = Inr data \<Longrightarrow>
     parents data = Some ps \<Longrightarrow> p \<in> set ps \<Longrightarrow> reaches c accessToken rootId p \<Longrightarrow>
     reaches c accessToken rootId folderId"

text \<open>
  The parent links the guard can follow: from a folder other than the root to each
  parent returned for it. The graph is acyclic and of finite depth, as the provider is
  assumed to keep it, exactly when this relation is well-founded.
\<close>

definition parent_rel :: "DriveClient \<Rightarrow> string \<Rightarrow> string \<Rightarrow> (string \<times> string) set" where
  "parent_rel c accessToken rootId =
     {(p, folderId). folderId \<noteq> rootId \<and>
        (\<exists>data ps. getDriveFileInfo c folderId accessToken ''parents'' = Inr data \<and>
                   parents data = Some ps \<and> p \<in> set ps)}"

section \<open>Access token\<close>

definition getAccessToken :: "DriveClient \<Rightarrow> GoogleDriveCredentials \<Rightarrow> (error + string) \<times> call list" where
  "getAccessToken c credentials =
     (case refreshAccessToken c credentials of
        Inl (Error m) \<Rightarrow> (Inl (Error (''Failed to refresh access token: '' @ m)), [RefreshToken])
      | Inr tokenResponse \<Rightarrow>
          if access_token tokenResponse = []
          then (Inl (Error ''Failed to refresh access token: No access token in response''), [RefreshToken])
          else (Inr (access_token tokenResponse), [RefreshToken]))"

section \<open>Upload: search, write, validation\<close>

text \<open>
  \<open>findExistingFile\<close>: the listing, the filter on \<open>file.name === fileName\<close>, the first
  match's id or \<open>null\<close>; the \<open>catch\<close> returns \<open>null\<close>.
\<close>

definition findExistingFile :: "DriveClient \<Rightarrow> string \<Rightarrow> string \<Rightarrow> string \<Rightarrow> string option \<times> call list" where
  "findExistingFile c fileName parentFolderId accessToken =
     (case listDriveFiles c parentFolderId accessToken ''files(id,name)'' of
        Inl e \<Rightarrow> (None, [ListFiles parentFolderId ''files(id,name)''])
      | Inr files \<Rightarrow>
          (let matchingFiles = filter (\<lambda>file. name_file file = fileName) files
           in if length matchingFiles > 0
              then (Some (id_file (matchingFiles ! 0)), [ListFiles parentFolderId ''files(id,name)''])
              else (None, [ListFiles parentFolderId ''files(id,name)''])))"

text \<open>JavaScript truthiness of a \<open>string | null\<close>: neither \<open>null\<close> nor the empty string.\<close>

definition truthy :: "string option \<Rightarrow> bool" where
  "truthy s = (case s of None \<Rightarrow> False | Some v \<Rightarrow> v \<noteq> [])"

text \<open>
  \<open>uploadFile\<close>: \<open>PATCH\<close> on the existing file's URL without \<open>parents\<close> when
  \<open>existingFileId\<close> is truthy, \<open>POST\<close> with \<open>parents: [parentFolderId]\<close> otherwise. The
  bytes of the body are not modelled; the parsed response is not used by any caller here.
\<close>

definition uploadFile :: "DriveClient \<Rightarrow> File \<Rightarrow> string \<Rightarrow> string option \<Rightarrow> string \<Rightarrow> (error + unit) \<times> call list" where
  "uploadFile c file parentFolderId existingFileId accessToken =
     (let fileName = (if name_of file = [] then ''untitled'' else name_of file);
          request = \<lparr> req_method = (if truthy existingFileId then PATCH else POST),
                      req_target = (if truthy existingFileId then existingFileId else None),
                      req_name = fileName,
                      req_parents = (if truthy existingFileId then None else Some [parentFolderId]),
                      req_content_type = (if type_of file = [] then ''application/octet-stream'' else type_of file) \<rparr>
      in (case uploadFetch c request accessToken of
            FetchThrows e \<Rightarrow> (Inl e, [Upload request])
          | NotOk errorText \<Rightarrow> (Inl (Error (''Failed to upload to Google Drive: '' @ errorText)), [Upload request])
          | Ok \<Rightarrow> (Inr (), [Upload request])))"

record validation =
  valid :: bool
  error_v :: "string option"
  details_v :: "string option"

text \<open>
  \<open>validateFolder\<close>. The first lookup uses the default \<open>fields\<close> of \<open>getDriveFileInfo\<close>;
  a throw there is the \<open>catch\<close> branch. \<open>isUnderDefaultFolder\<close> does not throw.
\<close>

definition validateFolder :: "DriveClient \<Rightarrow> string \<Rightarrow> string \<Rightarrow> string \<Rightarrow> (validation \<times> call list) option" where
  "validateFolder c folderId defaultFolderId accessToken =
     (if folderId = [] \<or> folderId = defaultFolderId
      then Some (\<lparr>valid = True, error_v = None, details_v = None\<rparr>, [])
      else
        (case getDriveFileInfo c folderId accessToken ''id,name,mimeType,parents'' of
           Inl e \<Rightarrow>
             Some (\<lparr>valid = False, error_v = Some ''Invalid folder ID'',
                    details_v = Some (''Folder '' @ folderId @ '' not found'')\<rparr>,
                   [GetFileInfo folderId ''id,name,mimeType,parents''])
         | Inr folderInfo \<Rightarrow>
             Option.bind (isUnderDefaultFolder c folderId defaultFolderId accessToken)
               (\<lambda>r. if \<not> fst r
                    then Some (\<lparr>valid = False, error_v = Some ''Unauthorized folder access'',
                                details_v = Some (''Folder '' @ folderId @ '' is not under the allowed default folder'')\<rparr>,
                               GetFileInfo folderId ''id,name,mimeType,parents'' # snd r)
                    else Some (\<lparr>valid = True, error_v = None, details_v = None\<rparr>,
                               GetFileInfo folderId ''id,name,mimeType,parents'' # snd r))))"

record upload_result =
  success :: bool
  error :: "string option"
  details :: "string option"

text \<open>
  \<open>processFileUpload\<close>. A rejected promise (from \<open>getAccessToken\<close> or \<open>uploadFile\<close>) is
  \<open>Inl\<close>; \<open>None\<close> is a run whose folder validation does not return.
\<close>

definition processFileUpload ::
  "DriveClient \<Rightarrow> File option \<Rightarrow> string \<Rightarrow> bool \<Rightarrow> GoogleDriveCredentials \<Rightarrow> string \<Rightarrow>
   ((error + upload_result) \<times> call list) option" where
  "processFileUpload c file folderId overwrite credentials defaultFolderId =
     (case file of
        None \<Rightarrow> Some (Inr \<lparr>success = False, error = Some ''No file provided'', details = None\<rparr>, [])
      | Some f \<Rightarrow>
          (case getAccessToken c credentials of
             (Inl e, t1) \<Rightarrow> Some (Inl e, t1)
           | (Inr accessToken, t1) \<Rightarrow>
               (let parentFolderId = (if folderId = [] then defaultFolderId else folderId)
                in Option.bind (validateFolder c parentFolderId defaultFolderId accessToken)
                     (\<lambda>(folderValidation, t2).
                        if \<not> valid folderValidation
                        then Some (Inr \<lparr>success = False, error = error_v folderValidation,
                                         details = details_v folderValidation\<rparr>, t1 @ t2)
                        else
                          (let (existingFileId, t3) =
                                 (if overwrite
                                  then findExistingFile c (if name_of f = [] then ''untitled'' else name_of f)
                                         parentFolderId accessToken
                                  else (None, []));
                               (uploaded, t4) = uploadFile c f parentFolderId existingFileId accessToken
                           in (case uploaded of
                                 Inl e \<Rightarrow> Some (Inl e, t1 @ t2 @ t3 @ t4)
                               | Inr u \<Rightarrow> Some (Inr \<lparr>success = True, error = None, details = None\<rparr>,
                                                t1 @ t2 @ t3 @ t4)))))))"

section \<open>Deleting the contents of a folder\<close>

text \<open>Decimal digits of a count, as a template literal prints a non-negative integer.\<close>

function string_of_nat :: "nat \<Rightarrow> string" where
  "string_of_nat n =
     (if n < 10 then [''0123456789'' ! n]
      else string_of_nat (n div 10) @ [''0123456789'' ! (n mod 10)])"
  by pat_completeness auto
termination
  by (relation "measure (\<lambda>n. n)") auto

text \<open>
  The filter of \<open>deleteFolderContents\<close>:
  \<open>!file.mimeType || file.mimeType !== 'application/vnd.google-apps.folder'\<close>.
\<close>

definition not_folder :: "DriveFile \<Rightarrow> bool" where
  "not_folder file =
     (case mimeType_file file of
        None \<Rightarrow> True
      | Some m \<Rightarrow> m = [] \<or> m \<noteq> ''application/vnd.google-apps.folder'')"

text \<open>
  The deletion loop, with its two counters (\<open>deletedCount\<close> and the list \<open>errors\<close>);
  \<open>attempted\<close> are the ids already passed to \<open>deleteDriveFile\<close>.
\<close>

fun delete_files :: "DriveClient \<Rightarrow> string \<Rightarrow> DriveFile list \<Rightarrow> string list \<Rightarrow> nat \<Rightarrow> string list \<Rightarrow>
    (nat \<times> string list) \<times> call list" where
  "delete_files c accessToken [] attempted deletedCount errors = ((deletedCount, errors), [])"
| "delete_files c accessToken (file # files) attempted deletedCount errors =
     (case deleteDriveFile c attempted (id_file file) accessToken of
        Inr u \<Rightarrow>
          (let (r, t) = delete_files c accessToken files (attempted @ [id_file file]) (deletedCount + 1) errors
           in (r, DeleteFile (id_file file) # t))
      | Inl (Error m) \<Rightarrow>
          (let (r, t) = delete_files c accessToken files (attempted @ [id_file file]) deletedCount
                          (errors @ [''Error deleting '' @ name_file file @ '': '' @ m])
           in (r, DeleteFile (id_file file) # t)))"

record delete_result = upload_result +
  message :: string

definition deleteFolderContents ::
  "DriveClient \<Rightarrow> string option \<Rightarrow> GoogleDriveCredentials \<Rightarrow> string \<Rightarrow>
   ((error + delete_result) \<times> call list) option" where
  "deleteFolderContents c folderId credentials defaultFolderId =
     (if folderId = None \<or> folderId = Some []
      then Some (Inr \<lparr>success = False, error = Some ''Folder ID is required'', details = None, message = []\<rparr>, [])
      else
        (let fid = the folderId in
         case getAccessToken c credentials of
           (Inl e, t1) \<Rightarrow> Some (Inl e, t1)
         | (Inr accessToken, t1) \<Rightarrow>
             Option.bind (isUnderDefaultFolder c fid defaultFolderId accessToken)
               (\<lambda>(isUnderDefault, t2).
                  if \<not> isUnderDefault
                  then Some (Inr \<lparr>success = False, error = Some ''Unauthorized folder access'',
                                   details = Some (''Folder '' @ fid @ '' is not under the allowed default folder''),
                                   message = []\<rparr>, t1 @ t2)
                  else
                    (case listDriveFiles c fid accessToken ''files(id,name,mimeType)'' of
                       Inl (Error m) \<Rightarrow>
                         Some (Inl (Error (''Failed to list folder contents: '' @ m)),
                               t1 @ t2 @ [ListFiles fid ''files(id,name,mimeType)''])
                     | Inr result_files \<Rightarrow>
                         (let files = filter not_folder result_files;
                              ((deletedCount, errors), t4) = delete_files c accessToken files [] 0 []
                          in Some (Inr \<lparr>success = True, error = None, details = None,
                                         message = ''Deleted '' @ string_of_nat deletedCount @ '' files from folder. ''
                                           @ (if length errors > 0 then ''Errors: '' @ string_of_nat (length errors) else [])\<rparr>,
                                   t1 @ t2 @ [ListFiles fid ''files(id,name,mimeType)''] @ t4))))))"


section \<open>Two remote stores used as concrete inputs\<close>

definition folder_info :: "string \<Rightarrow> string list option \<Rightarrow> DriveFileInfo" where
  "folder_info i ps =
     \<lparr>id_info = i, name_info = i, mimeType_info = ''application/vnd.google-apps.folder'', parents = ps\<rparr>"

text \<open>
  An acyclic store under the root \<open>R\<close>: \<open>C\<close> is a child of \<open>R\<close>; \<open>G\<close> is a child of the
  orphan \<open>P\<close>; \<open>N\<close> comes back without a \<open>parents\<close> property; \<open>M\<close> has the three parents
  \<open>P\<close>, \<open>C\<close>, \<open>Z\<close> in this order; every other id is not found. Listing \<open>C\<close> gives
  two files named \<open>a.txt\<close>, one named \<open>A.txt\<close> and a subfolder; listing anything else
  fails. Deleting \<open>y\<close> fails.
\<close>

definition tree_client :: DriveClient where
  "tree_client =
     \<lparr> refreshAccessToken = (\<lambda>credentials. Inr \<lparr>access_token = ''tok''\<rparr>),
       getDriveFileInfo = (\<lambda>fileId accessToken fields.
          if fileId = ''C'' then Inr (folder_info ''C'' (Some [''R'']))
          else if fileId = ''G'' then Inr (folder_info ''G'' (Some [''P'']))
          else if fileId = ''P'' then Inr (folder_info ''P'' (Some []))
          else if fileId = ''N'' then Inr (folder_info ''N'' None)
          else if fileId = ''M'' then Inr (folder_info ''M'' (Some [''P'', ''C'', ''Z'']))
          else Inl (Error ''Failed to get file info: File not found'')),
       listDriveFiles = (\<lambda>parentFolderId accessToken fields.
          if parentFolderId = ''C''
          then Inr [\<lparr>id_file = ''x'', name_file = ''a.txt'', mimeType_file = Some ''text/plain''\<rparr>,
                    \<lparr>id_file = ''s'', name_file = ''sub'', mimeType_file = Some ''application/vnd.google-apps.folder''\<rparr>,
                    \<lparr>id_file = ''y'', name_file = ''A.txt'', mimeType_file = None\<rparr>,
                    \<lparr>id_file = ''z'', name_file = ''a.txt'', mimeType_file = None\<rparr>]
          else Inl (Error ''Failed to list files: backend error'')),
       deleteDriveFile = (\<lambda>attempted fileId accessToken.
          if fileId = ''y'' then Inl (Error ''Failed to delete file: forbidden'') else Inr ()),
       uploadFetch = (\<lambda>request accessToken. Ok) \<rparr>"

text \<open>
  A store with a cycle: \<open>A\<close> is its own parent, and \<open>C\<close> has the parents \<open>A\<close> and \<open>R\<close>,
  in this order.
\<close>

definition cyclic_client :: DriveClient where
  "cyclic_client =
     \<lparr> refreshAccessToken = (\<lambda>credentials. Inr \<lparr>access_token = ''tok''\<rparr>),
       getDriveFileInfo = (\<lambda>fileId accessToken fields.
          if fileId = ''A'' then Inr (folder_info ''A'' (Some [''A'']))
          else if fileId = ''C'' then Inr (folder_info ''C'' (Some [''A'', ''R'']))
          else Inl (Error ''Failed to get file info: File not found'')),
       listDriveFiles = (\<lambda>parentFolderId accessToken fields. Inr []),
       deleteDriveFile = (\<lambda>attempted fileId accessToken. Inr ()),
       uploadFetch = (\<lambda>request accessToken. Ok) \<rparr>"

text \<open>A depth below the root for each folder of the acyclic store.\<close>

definition tree_rank :: "string \<Rightarrow> nat" where
  "tree_rank f = (if f = ''M'' then 2 else if f = ''C'' \<or> f = ''G'' then 1 else 0)"


text \<open>The calls that look a folder up (\<open>getDriveFileInfo\<close>).\<close>

fun is_lookup :: "call \<Rightarrow> bool" where
  "is_lookup (GetFileInfo i fl) = True"
| "is_lookup _ = False"

definition demo_credentials :: GoogleDriveCredentials where
  "demo_credentials = \<lparr>clientId = ''id'', clientSecret = ''secret'', refreshToken = ''refresh''\<rparr>"

definition demo_file :: File where
  "demo_file = \<lparr>name_of = ''a.txt'', type_of = ''text/plain''\<rparr>"

section \<open>Properties of the scope guard\<close>

subsection \<open>The loop over the parents\<close>

lemma for_parents_returns:
  "(\<And>p. p \<in> set ps \<Longrightarrow> \<exists>r. check p = Some r) \<Longrightarrow> \<exists>r. for_parents check ps = Some r"
  by (induction ps) (auto split: option.splits)

lemma isUnderDefaultFolder_returns:
  assumes "wf (parent_rel c tok d)"
  shows "\<exists>r. isUnderDefaultFolder c f d tok = Some r"
  using assms
proof (induction f rule: wf_induct_rule)
  case (less f)
  show ?case
  proof (cases "f = d")
    case True
    then show ?thesis by (subst isUnderDefaultFolder.simps) auto
  next
    case False
    show ?thesis
    proof (cases "getDriveFileInfo c f tok ''parents''")
      case (Inl e)
      with False show ?thesis by (subst isUnderDefaultFolder.simps) auto
    next
      case (Inr data)
      show ?thesis
      proof (cases "parents data")
        case None
        with False Inr show ?thesis by (subst isUnderDefaultFolder.simps) auto
      next
        case (Some ps)
        have "\<exists>r. isUnderDefaultFolder c p d tok = Some r" if "p \<in> set ps" for p
          using that False Inr Some by (intro less.IH) (auto simp: parent_rel_def)
        then obtain r where
          "for_parents (\<lambda>p. isUnderDefaultFolder c p d tok) ps = Some r"
          using for_parents_returns[of ps "\<lambda>p. isUnderDefaultFolder c p d tok"] by blast
        with False Inr Some show ?thesis by (subst isUnderDefaultFolder.simps) auto
      qed
    qed
  qed
qed




lemma for_parents_True_D:
  "for_parents check ps = Some r \<Longrightarrow> fst r \<Longrightarrow> \<exists>p\<in>set ps. \<exists>rp. check p = Some rp \<and> fst rp"
  by (induction ps arbitrary: r) (auto split: option.splits if_splits)

lemma isUnderDefaultFolder_sound:
  assumes "isUnderDefaultFolder c f d tok = Some r"
  shows "fst r \<longrightarrow> reaches c tok d f"
proof (rule isUnderDefaultFolder.raw_induct
    [where P = "\<lambda>c f d tok r. fst r \<longrightarrow> reaches c tok d f", OF _ assms])
  fix g :: "DriveClient \<Rightarrow> string \<Rightarrow> string \<Rightarrow> string \<Rightarrow> (bool \<times> call list) option"
  fix c f d tok r
  assume IH: "\<And>c f d tok r. g c f d tok = Some r \<Longrightarrow> fst r \<longrightarrow> reaches c tok d f"
  assume body: "(if f = d then Some (True, [])
        else case getDriveFileInfo c f tok ''parents'' of
             Inl e \<Rightarrow> Some (False, [GetFileInfo f ''parents''])
             | Inr data \<Rightarrow>
                 (case parents data of
                 None \<Rightarrow> Some (False, [GetFileInfo f ''parents''])
                 | Some ps \<Rightarrow>
                     if length ps = 0 then Some (False, [GetFileInfo f ''parents''])
                     else Option.bind (for_parents (\<lambda>parentId. g c parentId d tok) ps)
                           (\<lambda>r. Some (fst r, GetFileInfo f ''parents'' # snd r)))) = Some r"
  show "fst r \<longrightarrow> reaches c tok d f"
  proof (cases "f = d")
    case True
    then show ?thesis by (simp add: reaches.reaches_root)
  next
    case False
    show ?thesis
    proof
      assume "fst r"
      with False body obtain data ps r' where
        d: "getDriveFileInfo c f tok ''parents'' = Inr data" "parents data = Some ps"
        and fp: "for_parents (\<lambda>p. g c p d tok) ps = Some r'" and r: "fst r'"
        by (auto split: sum.splits option.splits if_splits simp: bind_eq_Some_conv)
      from for_parents_True_D[OF fp r] obtain p rp where
        "p \<in> set ps" "g c p d tok = Some rp" "fst rp" by auto
      with IH d show "reaches c tok d f" by (blast intro: reaches.reaches_parent)
    qed
  qed
qed

lemma for_parents_finds:
  "(\<And>q. q \<in> set ps \<Longrightarrow> \<exists>r. check q = Some r) \<Longrightarrow> p \<in> set ps \<Longrightarrow> check p = Some rp \<Longrightarrow> fst rp \<Longrightarrow>
   \<exists>t. for_parents check ps = Some (True, t)"
proof (induction ps)
  case Nil
  then show ?case by simp
next
  case (Cons q ps)
  obtain rq where rq: "check q = Some rq" using Cons.prems(1) by force
  show ?case
  proof (cases "fst rq")
    case True
    with rq show ?thesis by simp
  next
    case False
    with rq Cons.prems have "p \<in> set ps" by auto
    with Cons obtain t where "for_parents check ps = Some (True, t)" by auto
    with rq False show ?thesis by simp
  qed
qed

lemma isUnderDefaultFolder_complete:
  assumes "wf (parent_rel c tok d)" and "reaches c tok d f"
  shows "\<exists>t. isUnderDefaultFolder c f d tok = Some (True, t)"
  using assms(2)
proof (induction rule: reaches.induct)
  case reaches_root
  show ?case by (subst isUnderDefaultFolder.simps) simp
next
  case (reaches_parent f data ps p)
  show ?case
  proof (cases "f = d")
    case True
    then show ?thesis by (subst isUnderDefaultFolder.simps) simp
  next
    case False
    from reaches_parent.IH obtain tp where tp: "isUnderDefaultFolder c p d tok = Some (True, tp)" ..
    have "\<exists>t. for_parents (\<lambda>q. isUnderDefaultFolder c q d tok) ps = Some (True, t)"
    proof (rule for_parents_finds[where p = p and rp = "(True, tp)"])
      show "\<exists>r. isUnderDefaultFolder c q d tok = Some r" for q
        by (rule isUnderDefaultFolder_returns[OF assms(1)])
    qed (use reaches_parent.hyps(3) tp in simp_all)
    with False reaches_parent.hyps show ?thesis
      by (subst isUnderDefaultFolder.simps) auto
  qed
qed

lemma for_parents_first:
  "(\<And>q. q \<in> set pre \<Longrightarrow> \<exists>tq. check q = Some (False, tq)) \<Longrightarrow> check p = Some (True, tp) \<Longrightarrow>
   for_parents check (pre @ p # post) = Some (True, concat (map (\<lambda>q. snd (the (check q))) pre) @ tp)"
proof (induction pre)
  case Nil
  then show ?case by simp
next
  case (Cons a pre)
  obtain ta where "check a = Some (False, ta)" using Cons.prems(1)[of a] by auto
  moreover have "for_parents check (pre @ p # post) = Some (True, concat (map (\<lambda>q. snd (the (check q))) pre) @ tp)"
    using Cons by simp
  ultimately show ?case by simp
qed

lemma cyclic_aux:
  assumes "isUnderDefaultFolder c f d tok = Some r"
  shows "\<not> (c = cyclic_client \<and> d = ''R'' \<and> (f = ''A'' \<or> f = ''C''))"
proof (rule isUnderDefaultFolder.raw_induct
    [where P = "\<lambda>c f d tok r. \<not> (c = cyclic_client \<and> d = ''R'' \<and> (f = ''A'' \<or> f = ''C''))", OF _ assms])
  fix g :: "DriveClient \<Rightarrow> string \<Rightarrow> string \<Rightarrow> string \<Rightarrow> (bool \<times> call list) option"
  fix c f d tok r
  assume IH: "\<And>c f d tok r. g c f d tok = Some r \<Longrightarrow> \<not> (c = cyclic_client \<and> d = ''R'' \<and> (f = ''A'' \<or> f = ''C''))"
  assume body: "(if f = d then Some (True, [])
        else case getDriveFileInfo c f tok ''parents'' of
             Inl e \<Rightarrow> Some (False, [GetFileInfo f ''parents''])
             | Inr data \<Rightarrow>
                 (case parents data of
                 None \<Rightarrow> Some (False, [GetFileInfo f ''parents''])
                 | Some ps \<Rightarrow>
                     if length ps = 0 then Some (False, [GetFileInfo f ''parents''])
                     else Option.bind (for_parents (\<lambda>parentId. g c parentId d tok) ps)
                           (\<lambda>r. Some (fst r, GetFileInfo f ''parents'' # snd r)))) = Some r"
  show "\<not> (c = cyclic_client \<and> d = ''R'' \<and> (f = ''A'' \<or> f = ''C''))"
  proof
    assume a: "c = cyclic_client \<and> d = ''R'' \<and> (f = ''A'' \<or> f = ''C'')"
    with body obtain r' where "g cyclic_client ''A'' ''R'' tok = Some r'"
      by (auto simp: cyclic_client_def folder_info_def bind_eq_Some_conv split: option.splits if_splits)
    with IH show False by blast
  qed
qed

lemma cyclic_diverges:
  "f = ''A'' \<or> f = ''C'' \<Longrightarrow> isUnderDefaultFolder cyclic_client f ''R'' tok = None"
  using cyclic_aux[of cyclic_client f "''R''" tok]
  by (cases "isUnderDefaultFolder cyclic_client f ''R'' tok") auto


lemma isUnderDefaultFolder_denies:
  assumes "wf (parent_rel c tok d)" and "\<not> reaches c tok d f"
  shows "\<exists>t. isUnderDefaultFolder c f d tok = Some (False, t)"
proof -
  obtain r where r: "isUnderDefaultFolder c f d tok = Some r"
    using isUnderDefaultFolder_returns[OF assms(1)] by blast
  with assms(2) have "\<not> fst r"
    using isUnderDefaultFolder_sound[OF r] by blast
  with r show ?thesis by (cases r) auto
qed

lemma tree_client_wf: "wf (parent_rel tree_client tok ''R'')"
proof (rule wf_subset[OF wf_measure[of tree_rank]])
  show "parent_rel tree_client tok ''R'' \<subseteq> measure tree_rank"
    by (auto simp: parent_rel_def tree_client_def folder_info_def tree_rank_def split: if_splits)
qed

lemma tree_client_reaches_C: "reaches tree_client tok ''R'' ''C''"
  by (rule reaches.reaches_parent[where data = "folder_info ''C'' (Some [''R''])" and ps = "[''R'']" and p = "''R''"])
     (simp_all add: tree_client_def folder_info_def reaches.reaches_root)

lemma tree_client_not_reaches_P: "\<not> reaches tree_client tok ''R'' ''P''"
proof
  assume "reaches tree_client tok ''R'' ''P''"
  then show False
    by (cases rule: reaches.cases) (auto simp: tree_client_def folder_info_def)
qed

subsection \<open>The root itself\<close>

text \<open>
  C4. For every root id, \<open>isUnderDefaultFolder(rootId, rootId, token)\<close> returns \<open>true\<close>
  and makes no call to the Drive client: the list of calls is empty, whatever the
  client would answer.
\<close>

theorem isUnderDefaultFolder_root_no_calls:
  "isUnderDefaultFolder c rootId rootId accessToken = Some (True, [])"
  by (subst isUnderDefaultFolder.simps) simp

subsection \<open>Orphans\<close>

text \<open>
  C5. For every folder id other than the root whose lookup succeeds with an empty parent
  list, or with no \<open>parents\<close> property at all, the guard returns \<open>false\<close> after that one
  lookup.
\<close>

theorem isUnderDefaultFolder_orphan:
  assumes "folderId \<noteq> rootId"
    and "getDriveFileInfo c folderId accessToken ''parents'' = Inr data"
    and "parents data = None \<or> parents data = Some []"
  shows "isUnderDefaultFolder c folderId rootId accessToken = Some (False, [GetFileInfo folderId ''parents''])"
  using assms by (subst isUnderDefaultFolder.simps) auto

theorem isUnderDefaultFolder_orphan_witness:
  "''P'' \<noteq> ''R''
   \<and> getDriveFileInfo tree_client ''P'' ''tok'' ''parents'' = Inr (folder_info ''P'' (Some []))
   \<and> getDriveFileInfo tree_client ''N'' ''tok'' ''parents'' = Inr (folder_info ''N'' None)
   \<and> isUnderDefaultFolder tree_client ''P'' ''R'' ''tok'' = Some (False, [GetFileInfo ''P'' ''parents''])
   \<and> isUnderDefaultFolder tree_client ''N'' ''R'' ''tok'' = Some (False, [GetFileInfo ''N'' ''parents''])"
proof -
  have p: "getDriveFileInfo tree_client ''P'' ''tok'' ''parents'' = Inr (folder_info ''P'' (Some []))"
    and n: "getDriveFileInfo tree_client ''N'' ''tok'' ''parents'' = Inr (folder_info ''N'' None)"
    by (simp_all add: tree_client_def)
  have "isUnderDefaultFolder tree_client ''P'' ''R'' ''tok'' = Some (False, [GetFileInfo ''P'' ''parents''])"
    by (rule isUnderDefaultFolder_orphan[OF _ p]) (simp_all add: folder_info_def)
  moreover have "isUnderDefaultFolder tree_client ''N'' ''R'' ''tok'' = Some (False, [GetFileInfo ''N'' ''parents''])"
    by (rule isUnderDefaultFolder_orphan[OF _ n]) (simp_all add: folder_info_def)
  ultimately show ?thesis using p n by simp
qed

subsection \<open>Failed lookups\<close>

text \<open>
  C2. The guard has no exceptional result: its value is a boolean (with the calls made),
  or it does not return. Whenever the lookup of a folder other than the root throws,
  whatever the error, the guard returns \<open>false\<close> for that folder after that one call; this
  holds for the folder asked about and for every parent reached in the recursion. And
  the answer \<open>true\<close> is given only for a folder from which a chain of successful lookups
  leads to the root, so a failed lookup never counts as in scope.
\<close>

theorem isUnderDefaultFolder_lookup_failure:
  "(folderId \<noteq> rootId \<and> getDriveFileInfo c folderId accessToken ''parents'' = Inl e \<longrightarrow>
      isUnderDefaultFolder c folderId rootId accessToken = Some (False, [GetFileInfo folderId ''parents'']))
   \<and> (isUnderDefaultFolder c folderId rootId accessToken = Some (True, t) \<longrightarrow>
        reaches c accessToken rootId folderId)"
proof (intro conjI impI)
  assume "folderId \<noteq> rootId \<and> getDriveFileInfo c folderId accessToken ''parents'' = Inl e"
  then show "isUnderDefaultFolder c folderId rootId accessToken = Some (False, [GetFileInfo folderId ''parents''])"
    by (subst isUnderDefaultFolder.simps) simp
next
  assume "isUnderDefaultFolder c folderId rootId accessToken = Some (True, t)"
  from isUnderDefaultFolder_sound[OF this] show "reaches c accessToken rootId folderId" by simp
qed

theorem isUnderDefaultFolder_lookup_failure_witness:
  "''Q'' \<noteq> ''R''
   \<and> getDriveFileInfo tree_client ''Q'' ''tok'' ''parents'' = Inl (Error ''Failed to get file info: File not found'')
   \<and> isUnderDefaultFolder tree_client ''Q'' ''R'' ''tok'' = Some (False, [GetFileInfo ''Q'' ''parents''])
   \<and> isUnderDefaultFolder tree_client ''C'' ''R'' ''tok'' = Some (True, [GetFileInfo ''C'' ''parents''])
   \<and> reaches tree_client ''tok'' ''R'' ''C''"
proof -
  have q: "getDriveFileInfo tree_client ''Q'' ''tok'' ''parents'' = Inl (Error ''Failed to get file info: File not found'')"
    by (simp add: tree_client_def)
  have c: "isUnderDefaultFolder tree_client ''C'' ''R'' ''tok'' = Some (True, [GetFileInfo ''C'' ''parents''])"
    by (simp add: isUnderDefaultFolder.simps tree_client_def folder_info_def)
  have "isUnderDefaultFolder tree_client ''Q'' ''R'' ''tok'' = Some (False, [GetFileInfo ''Q'' ''parents''])"
    using isUnderDefaultFolder_lookup_failure[of "''Q''" "''R''" tree_client "''tok''"] q by simp
  moreover have "reaches tree_client ''tok'' ''R'' ''C''"
    using isUnderDefaultFolder_lookup_failure[of "''C''" "''R''" tree_client "''tok''"] c by simp
  ultimately show ?thesis using q c by simp
qed

subsection \<open>Termination\<close>

text \<open>
  C8, as the code has it. \<open>isUnderDefaultFolder\<close> carries no depth counter and no visited
  set. It returns a boolean on every parent graph that is acyclic and of finite depth
  below the root (the parent relation is well-founded). On a graph with a cycle that
  does not pass through the root it does not return: with \<open>A\<close> its own parent, the check
  of \<open>A\<close> against the root \<open>R\<close> has no result.
\<close>

theorem isUnderDefaultFolder_terminates_acyclic:
  assumes "wf (parent_rel c accessToken rootId)"
  shows "\<exists>b t. isUnderDefaultFolder c folderId rootId accessToken = Some (b, t)"
  using isUnderDefaultFolder_returns[OF assms, of folderId] by auto

theorem isUnderDefaultFolder_terminates_acyclic_witness:
  "wf (parent_rel tree_client ''tok'' ''R'')
   \<and> (\<exists>b t. isUnderDefaultFolder tree_client ''G'' ''R'' ''tok'' = Some (b, t))
   \<and> isUnderDefaultFolder tree_client ''G'' ''R'' ''tok''
       = Some (False, [GetFileInfo ''G'' ''parents'', GetFileInfo ''P'' ''parents''])"
proof -
  have w: "wf (parent_rel tree_client ''tok'' ''R'')" by (rule tree_client_wf)
  have "isUnderDefaultFolder tree_client ''G'' ''R'' ''tok''
       = Some (False, [GetFileInfo ''G'' ''parents'', GetFileInfo ''P'' ''parents''])"
    by (simp add: isUnderDefaultFolder.simps tree_client_def folder_info_def)
  with w isUnderDefaultFolder_terminates_acyclic[OF w, of "''G''"] show ?thesis by simp
qed

theorem isUnderDefaultFolder_cycle_counterexample:
  "isUnderDefaultFolder cyclic_client ''A'' ''R'' ''tok'' = None"
  by (rule cyclic_diverges) simp

subsection \<open>Folders under the root\<close>

text \<open>
  C1, as the code has it. On a parent graph that is acyclic and of finite depth below the
  root: the guard returns \<open>true\<close> for every folder whose parent chain reaches the root,
  and \<open>false\<close> for every other folder. The parents are checked in the order returned:
  when \<open>p\<close> is the first parent in scope, the calls made are the lookup of the folder,
  then the calls of the checks of the parents before \<open>p\<close>, then those of the check of
  \<open>p\<close>, and nothing is looked up for the parents after \<open>p\<close>.
  Without acyclicity the first part fails: with \<open>A\<close> its own parent and \<open>C\<close> under \<open>A\<close>
  and \<open>R\<close> in this order, \<open>C\<close> reaches \<open>R\<close> and the check of \<open>C\<close> does not return.
\<close>

theorem isUnderDefaultFolder_in_scope:
  assumes "wf (parent_rel c accessToken rootId)"
  shows "(reaches c accessToken rootId folderId \<longrightarrow>
            (\<exists>t. isUnderDefaultFolder c folderId rootId accessToken = Some (True, t)))
       \<and> (\<not> reaches c accessToken rootId folderId \<longrightarrow>
            (\<exists>t. isUnderDefaultFolder c folderId rootId accessToken = Some (False, t)))
       \<and> (\<forall>data pre p post.
            folderId \<noteq> rootId
            \<and> getDriveFileInfo c folderId accessToken ''parents'' = Inr data
            \<and> parents data = Some (pre @ p # post)
            \<and> (\<forall>q\<in>set pre. \<not> reaches c accessToken rootId q)
            \<and> reaches c accessToken rootId p \<longrightarrow>
            isUnderDefaultFolder c folderId rootId accessToken =
              Some (True, GetFileInfo folderId ''parents''
                          # concat (map (\<lambda>q. snd (the (isUnderDefaultFolder c q rootId accessToken))) pre)
                          @ snd (the (isUnderDefaultFolder c p rootId accessToken))))"
proof (intro conjI impI allI)
  assume "reaches c accessToken rootId folderId"
  then show "\<exists>t. isUnderDefaultFolder c folderId rootId accessToken = Some (True, t)"
    by (rule isUnderDefaultFolder_complete[OF assms])
next
  assume "\<not> reaches c accessToken rootId folderId"
  then show "\<exists>t. isUnderDefaultFolder c folderId rootId accessToken = Some (False, t)"
    by (rule isUnderDefaultFolder_denies[OF assms])
next
  fix data pre p post
  assume a: "folderId \<noteq> rootId
            \<and> getDriveFileInfo c folderId accessToken ''parents'' = Inr data
            \<and> parents data = Some (pre @ p # post)
            \<and> (\<forall>q\<in>set pre. \<not> reaches c accessToken rootId q)
            \<and> reaches c accessToken rootId p"
  let ?check = "\<lambda>q. isUnderDefaultFolder c q rootId accessToken"
  have pre: "\<exists>tq. ?check q = Some (False, tq)" if "q \<in> set pre" for q
    using that a isUnderDefaultFolder_denies[OF assms] by blast
  obtain tp where tp: "?check p = Some (True, tp)"
    using a isUnderDefaultFolder_complete[OF assms] by blast
  have "for_parents ?check (pre @ p # post)
          = Some (True, concat (map (\<lambda>q. snd (the (?check q))) pre) @ tp)"
    by (rule for_parents_first[where check = ?check, OF pre tp])
  with a tp show "isUnderDefaultFolder c folderId rootId accessToken =
              Some (True, GetFileInfo folderId ''parents''
                          # concat (map (\<lambda>q. snd (the (?check q))) pre)
                          @ snd (the (?check p)))"
    by (subst isUnderDefaultFolder.simps) simp
qed

theorem isUnderDefaultFolder_in_scope_witness:
  "wf (parent_rel tree_client ''tok'' ''R'')
   \<and> reaches tree_client ''tok'' ''R'' ''C''
   \<and> \<not> reaches tree_client ''tok'' ''R'' ''P''
   \<and> (\<exists>t. isUnderDefaultFolder tree_client ''C'' ''R'' ''tok'' = Some (True, t))
   \<and> (\<exists>t. isUnderDefaultFolder tree_client ''P'' ''R'' ''tok'' = Some (False, t))
   \<and> isUnderDefaultFolder tree_client ''M'' ''R'' ''tok''
       = Some (True, [GetFileInfo ''M'' ''parents'', GetFileInfo ''P'' ''parents'', GetFileInfo ''C'' ''parents''])"
proof -
  have w: "wf (parent_rel tree_client ''tok'' ''R'')" by (rule tree_client_wf)
  have rc: "reaches tree_client ''tok'' ''R'' ''C''" by (rule tree_client_reaches_C)
  have np: "\<not> reaches tree_client ''tok'' ''R'' ''P''" by (rule tree_client_not_reaches_P)
  note th = isUnderDefaultFolder_in_scope[OF w]
  have c: "\<exists>t. isUnderDefaultFolder tree_client ''C'' ''R'' ''tok'' = Some (True, t)"
    using th[of "''C''"] rc by blast
  have p: "\<exists>t. isUnderDefaultFolder tree_client ''P'' ''R'' ''tok'' = Some (False, t)"
    using th[of "''P''"] np by blast
  have m0: "''M'' \<noteq> ''R''
      \<and> getDriveFileInfo tree_client ''M'' ''tok'' ''parents'' = Inr (folder_info ''M'' (Some [''P'', ''C'', ''Z'']))
      \<and> parents (folder_info ''M'' (Some [''P'', ''C'', ''Z''])) = Some ([''P''] @ ''C'' # [''Z''])
      \<and> (\<forall>q\<in>set [''P'']. \<not> reaches tree_client ''tok'' ''R'' q)
      \<and> reaches tree_client ''tok'' ''R'' ''C''"
    using rc np by (simp add: tree_client_def folder_info_def)
  have "isUnderDefaultFolder tree_client ''M'' ''R'' ''tok'' =
          Some (True, GetFileInfo ''M'' ''parents''
                  # concat (map (\<lambda>q. snd (the (isUnderDefaultFolder tree_client q ''R'' ''tok''))) [''P''])
                  @ snd (the (isUnderDefaultFolder tree_client ''C'' ''R'' ''tok'')))"
    using th[of "''M''"] m0 by blast
  moreover have "isUnderDefaultFolder tree_client ''P'' ''R'' ''tok'' = Some (False, [GetFileInfo ''P'' ''parents''])"
    and "isUnderDefaultFolder tree_client ''C'' ''R'' ''tok'' = Some (True, [GetFileInfo ''C'' ''parents''])"
    by (simp_all add: isUnderDefaultFolder.simps tree_client_def folder_info_def)
  ultimately have "isUnderDefaultFolder tree_client ''M'' ''R'' ''tok''
       = Some (True, [GetFileInfo ''M'' ''parents'', GetFileInfo ''P'' ''parents'', GetFileInfo ''C'' ''parents''])"
    by simp
  with w rc np c p show ?thesis by blast
qed

theorem isUnderDefaultFolder_in_scope_counterexample:
  "reaches cyclic_client ''tok'' ''R'' ''C''
   \<and> isUnderDefaultFolder cyclic_client ''C'' ''R'' ''tok'' = None"
proof
  show "reaches cyclic_client ''tok'' ''R'' ''C''"
    by (rule reaches.reaches_parent[where data = "folder_info ''C'' (Some [''A'', ''R''])"
          and ps = "[''A'', ''R'']" and p = "''R''"])
       (simp_all add: cyclic_client_def folder_info_def reaches.reaches_root)
  show "isUnderDefaultFolder cyclic_client ''C'' ''R'' ''tok'' = None"
    by (rule cyclic_diverges) simp
qed


section \<open>Properties of the upload\<close>

subsection \<open>Which calls are made\<close>

lemmas tree_eval = getAccessToken_def validateFolder_def isUnderDefaultFolder.simps uploadFile_def
  findExistingFile_def truthy_def tree_client_def folder_info_def demo_credentials_def demo_file_def
  Let_def

lemma for_parents_calls:
  "for_parents check ps = Some r \<Longrightarrow> (\<And>p rp x. check p = Some rp \<Longrightarrow> x \<in> set (snd rp) \<Longrightarrow> P x) \<Longrightarrow>
   x \<in> set (snd r) \<Longrightarrow> P x"
proof (induction ps arbitrary: r x)
  case Nil
  then show ?case by auto
next
  case (Cons p ps)
  show ?case
  proof (cases "check p")
    case None
    with Cons.prems(1) show ?thesis by simp
  next
    case (Some rp)
    show ?thesis
    proof (cases "fst rp")
      case True
      with Some Cons.prems(1,3) have "x \<in> set (snd rp)" by auto
      with Some show ?thesis by (rule Cons.prems(2))
    next
      case False
      with Some Cons.prems(1) obtain r' where r': "for_parents check ps = Some r'" "snd r = snd rp @ snd r'"
        by (auto split: option.splits)
      with Cons.prems(3) consider "x \<in> set (snd rp)" | "x \<in> set (snd r')" by auto
      then show ?thesis
      proof cases
        case 1
        with Some show ?thesis by (rule Cons.prems(2))
      next
        case 2
        show ?thesis by (rule Cons.IH[OF r'(1) Cons.prems(2) 2])
      qed
    qed
  qed
qed

lemma isUnderDefaultFolder_calls_aux:
  assumes "isUnderDefaultFolder c f d tok = Some r"
  shows "\<forall>x\<in>set (snd r). is_lookup x"
proof (rule isUnderDefaultFolder.raw_induct
    [where P = "\<lambda>c f d tok r. \<forall>x\<in>set (snd r). is_lookup x", OF _ assms])
  fix g :: "DriveClient \<Rightarrow> string \<Rightarrow> string \<Rightarrow> string \<Rightarrow> (bool \<times> call list) option"
  fix c f d tok r
  assume IH: "\<And>c f d tok r. g c f d tok = Some r \<Longrightarrow> \<forall>x\<in>set (snd r). is_lookup x"
  assume body: "(if f = d then Some (True, [])
        else case getDriveFileInfo c f tok ''parents'' of
             Inl e \<Rightarrow> Some (False, [GetFileInfo f ''parents''])
             | Inr data \<Rightarrow>
                 (case parents data of
                 None \<Rightarrow> Some (False, [GetFileInfo f ''parents''])
                 | Some ps \<Rightarrow>
                     if length ps = 0 then Some (False, [GetFileInfo f ''parents''])
                     else Option.bind (for_parents (\<lambda>parentId. g c parentId d tok) ps)
                           (\<lambda>r. Some (fst r, GetFileInfo f ''parents'' # snd r)))) = Some r"
  have fp: "is_lookup x" if "for_parents (\<lambda>p. g c p d tok) ps = Some (b, t)" "x \<in> set t" for ps b t x
  proof (rule for_parents_calls[OF that(1), of is_lookup x])
    show "is_lookup x" if "g c p d tok = Some rp" "x \<in> set (snd rp)" for p rp x
      using IH that by blast
  qed (use that in simp)
  from body show "\<forall>x\<in>set (snd r). is_lookup x"
    by (auto split: if_splits sum.splits option.splits simp: bind_eq_Some_conv dest: fp)
qed

lemma isUnderDefaultFolder_calls:
  "isUnderDefaultFolder c f d tok = Some (b, t) \<Longrightarrow> x \<in> set t \<Longrightarrow> is_lookup x"
  using isUnderDefaultFolder_calls_aux[of c f d tok "(b, t)"] by simp

lemma validateFolder_calls:
  "validateFolder c folderId d tok = Some (v, t) \<Longrightarrow> \<forall>x\<in>set t. is_lookup x"
  by (auto simp: validateFolder_def bind_eq_Some_conv split: if_splits sum.splits
           dest: isUnderDefaultFolder_calls)

lemma getAccessToken_calls: "snd (getAccessToken c credentials) = [RefreshToken]"
  by (auto simp: getAccessToken_def split: sum.splits error.splits)

lemma uploadFile_create:
  "\<exists>request. snd (uploadFile c f parentFolderId None accessToken) = [Upload request]
     \<and> req_method request = POST \<and> req_target request = None \<and> req_parents request = Some [parentFolderId]
     \<and> (uploadFetch c request accessToken = Ok \<longrightarrow> fst (uploadFile c f parentFolderId None accessToken) = Inr ())"
  by (auto simp: uploadFile_def truthy_def Let_def split: fetch_result.splits)

lemma processFileUpload_no_overwrite_calls:
  assumes run: "processFileUpload c file folderId False credentials defaultFolderId = Some (r, t)"
    and x: "x \<in> set t"
  shows "x = RefreshToken \<or> is_lookup x
         \<or> (\<exists>request. x = Upload request \<and> req_method request = POST \<and> req_target request = None)"
proof (cases "file")
  case None
  with run x show ?thesis by (simp add: processFileUpload_def)
next
  case (Some f)
  obtain tr t1 where tk: "getAccessToken c credentials = (tr, t1)" by (cases "getAccessToken c credentials")
  have t1: "t1 = [RefreshToken]" using getAccessToken_calls[of c credentials] tk by simp
  show ?thesis
  proof (cases tr)
    case (Inl e)
    with run x Some tk t1 show ?thesis by (auto simp: processFileUpload_def)
  next
    case (Inr accessToken)
    let ?parent = "if folderId = [] then defaultFolderId else folderId"
    from run Some tk Inr obtain v t2 where v: "validateFolder c ?parent defaultFolderId accessToken = Some (v, t2)"
      by (auto simp: processFileUpload_def Let_def bind_eq_Some_conv)
    have t2: "\<forall>x\<in>set t2. is_lookup x" using validateFolder_calls[OF v] .
    obtain request where rq: "snd (uploadFile c f ?parent None accessToken) = [Upload request]"
      "req_method request = POST" "req_target request = None"
      using uploadFile_create[of c f ?parent accessToken] by blast
    then obtain u where u: "uploadFile c f ?parent None accessToken = (u, [Upload request])"
      by (cases "uploadFile c f ?parent None accessToken") auto
    have "t = t1 @ t2 \<or> t = t1 @ t2 @ [Upload request]"
      using run Some tk Inr v u
      by (cases u) (auto simp: processFileUpload_def Let_def split: if_splits)
    with x t1 t2 rq(2,3) show ?thesis by auto
  qed
qed


lemma uploadFile_calls:
  "\<exists>request. snd (uploadFile c f parentFolderId existingFileId accessToken) = [Upload request]
     \<and> (req_method request = POST \<longrightarrow> req_parents request = Some [parentFolderId])"
proof (cases "uploadFetch c \<lparr> req_method = (if truthy existingFileId then PATCH else POST),
                      req_target = (if truthy existingFileId then existingFileId else None),
                      req_name = (if name_of f = [] then ''untitled'' else name_of f),
                      req_parents = (if truthy existingFileId then None else Some [parentFolderId]),
                      req_content_type = (if type_of f = [] then ''application/octet-stream'' else type_of f) \<rparr> accessToken")
  case (FetchThrows e)
  then show ?thesis by (simp add: uploadFile_def Let_def)
next
  case (NotOk x)
  then show ?thesis by (simp add: uploadFile_def Let_def)
next
  case Ok
  then show ?thesis by (simp add: uploadFile_def Let_def)
qed

lemma findExistingFile_calls:
  "snd (findExistingFile c fileName parentFolderId accessToken) = [ListFiles parentFolderId ''files(id,name)'']"
  by (auto simp: findExistingFile_def Let_def split: sum.splits)

subsection \<open>Upload without overwrite\<close>

text \<open>
  C6. With \<open>overwrite\<close> false, \<open>processFileUpload\<close> never calls \<open>listDriveFiles\<close>: no run
  has a listing among its calls, and every upload request it sends is a creation
  (\<open>POST\<close>, no file id in the URL). When a file is given, the token is obtained and the
  folder is validated, the run ends with exactly one such request, whose metadata names
  the parent folder, whatever the folder contains.
\<close>

theorem processFileUpload_no_overwrite:
  "(\<forall>r t. processFileUpload c file folderId False credentials defaultFolderId = Some (r, t) \<longrightarrow>
      (\<forall>p fields. ListFiles p fields \<notin> set t)
      \<and> (\<forall>request. Upload request \<in> set t \<longrightarrow> req_method request = POST \<and> req_target request = None))
   \<and> (\<forall>f accessToken t1 v t2.
        file = Some f
        \<and> getAccessToken c credentials = (Inr accessToken, t1)
        \<and> validateFolder c (if folderId = [] then defaultFolderId else folderId) defaultFolderId accessToken = Some (v, t2)
        \<and> valid v \<longrightarrow>
        (\<exists>r request.
           processFileUpload c file folderId False credentials defaultFolderId = Some (r, t1 @ t2 @ [Upload request])
           \<and> req_method request = POST \<and> req_target request = None
           \<and> req_parents request = Some [if folderId = [] then defaultFolderId else folderId]))"
proof (rule conjI)
  show "\<forall>r t. processFileUpload c file folderId False credentials defaultFolderId = Some (r, t) \<longrightarrow>
      (\<forall>p fields. ListFiles p fields \<notin> set t)
      \<and> (\<forall>request. Upload request \<in> set t \<longrightarrow> req_method request = POST \<and> req_target request = None)"
    using processFileUpload_no_overwrite_calls[of c "file" folderId credentials defaultFolderId]
    by fastforce
  show "\<forall>f accessToken t1 v t2.
        file = Some f
        \<and> getAccessToken c credentials = (Inr accessToken, t1)
        \<and> validateFolder c (if folderId = [] then defaultFolderId else folderId) defaultFolderId accessToken = Some (v, t2)
        \<and> valid v \<longrightarrow>
        (\<exists>r request.
           processFileUpload c file folderId False credentials defaultFolderId = Some (r, t1 @ t2 @ [Upload request])
           \<and> req_method request = POST \<and> req_target request = None
           \<and> req_parents request = Some [if folderId = [] then defaultFolderId else folderId])"
  proof (intro allI impI)
    fix f accessToken t1 v t2
    assume a: "file = Some f
        \<and> getAccessToken c credentials = (Inr accessToken, t1)
        \<and> validateFolder c (if folderId = [] then defaultFolderId else folderId) defaultFolderId accessToken = Some (v, t2)
        \<and> valid v"
    let ?parent = "if folderId = [] then defaultFolderId else folderId"
    obtain request where rq: "snd (uploadFile c f ?parent None accessToken) = [Upload request]"
       "req_method request = POST" "req_target request = None" "req_parents request = Some [?parent]"
      using uploadFile_create[of c f ?parent accessToken] by blast
    obtain u where u: "uploadFile c f ?parent None accessToken = (u, [Upload request])"
      using rq(1) by (cases "uploadFile c f ?parent None accessToken") auto
    have "\<exists>r. processFileUpload c file folderId False credentials defaultFolderId = Some (r, t1 @ t2 @ [Upload request])"
      using a u by (cases u) (simp_all add: processFileUpload_def Let_def)
    with rq show "\<exists>r request.
           processFileUpload c file folderId False credentials defaultFolderId = Some (r, t1 @ t2 @ [Upload request])
           \<and> req_method request = POST \<and> req_target request = None
           \<and> req_parents request = Some [if folderId = [] then defaultFolderId else folderId]"
      by blast
  qed
qed



theorem processFileUpload_no_overwrite_witness:
  "getAccessToken tree_client demo_credentials = (Inr ''tok'', [RefreshToken])
   \<and> validateFolder tree_client ''C'' ''R'' ''tok''
       = Some (\<lparr>valid = True, error_v = None, details_v = None\<rparr>,
               [GetFileInfo ''C'' ''id,name,mimeType,parents'', GetFileInfo ''C'' ''parents''])
   \<and> processFileUpload tree_client (Some demo_file) ''C'' False demo_credentials ''R''
       = Some (Inr \<lparr>success = True, error = None, details = None\<rparr>,
               [RefreshToken, GetFileInfo ''C'' ''id,name,mimeType,parents'', GetFileInfo ''C'' ''parents'',
                Upload \<lparr>req_method = POST, req_target = None, req_name = ''a.txt'',
                        req_parents = Some [''C''], req_content_type = ''text/plain''\<rparr>])
   \<and> (\<exists>r request. processFileUpload tree_client (Some demo_file) ''C'' False demo_credentials ''R''
         = Some (r, [RefreshToken] @ [GetFileInfo ''C'' ''id,name,mimeType,parents'', GetFileInfo ''C'' ''parents'']
                    @ [Upload request])
         \<and> req_method request = POST \<and> req_target request = None \<and> req_parents request = Some [''C''])
   \<and> ListFiles ''C'' ''files(id,name)'' \<notin> set
        [RefreshToken, GetFileInfo ''C'' ''id,name,mimeType,parents'', GetFileInfo ''C'' ''parents'',
         Upload \<lparr>req_method = POST, req_target = None, req_name = ''a.txt'',
                 req_parents = Some [''C''], req_content_type = ''text/plain''\<rparr>]"
proof -
  have tk: "getAccessToken tree_client demo_credentials = (Inr ''tok'', [RefreshToken])"
    by (simp add: tree_eval)
  have v: "validateFolder tree_client ''C'' ''R'' ''tok''
       = Some (\<lparr>valid = True, error_v = None, details_v = None\<rparr>,
               [GetFileInfo ''C'' ''id,name,mimeType,parents'', GetFileInfo ''C'' ''parents''])"
    by (simp add: tree_eval)
  have run: "processFileUpload tree_client (Some demo_file) ''C'' False demo_credentials ''R''
       = Some (Inr \<lparr>success = True, error = None, details = None\<rparr>,
               [RefreshToken, GetFileInfo ''C'' ''id,name,mimeType,parents'', GetFileInfo ''C'' ''parents'',
                Upload \<lparr>req_method = POST, req_target = None, req_name = ''a.txt'',
                        req_parents = Some [''C''], req_content_type = ''text/plain''\<rparr>])"
    by (simp add: processFileUpload_def tree_eval)
  note th = processFileUpload_no_overwrite[of tree_client "Some demo_file" "''C''" demo_credentials "''R''"]
  have "\<exists>r request. processFileUpload tree_client (Some demo_file) ''C'' False demo_credentials ''R''
         = Some (r, [RefreshToken] @ [GetFileInfo ''C'' ''id,name,mimeType,parents'', GetFileInfo ''C'' ''parents'']
                    @ [Upload request])
         \<and> req_method request = POST \<and> req_target request = None \<and> req_parents request = Some [''C'']"
    using th tk v by simp
  moreover have "ListFiles ''C'' ''files(id,name)'' \<notin> set
        [RefreshToken, GetFileInfo ''C'' ''id,name,mimeType,parents'', GetFileInfo ''C'' ''parents'',
         Upload \<lparr>req_method = POST, req_target = None, req_name = ''a.txt'',
                 req_parents = Some [''C''], req_content_type = ''text/plain''\<rparr>]"
    using th run by blast
  ultimately show ?thesis using tk v run by blast
qed


subsection \<open>Search for an existing file\<close>

lemma filter_first_match:
  "\<forall>g\<in>set pre. \<not> P g \<Longrightarrow> P x \<Longrightarrow> filter P (pre @ x # post) = x # filter P post"
  by (induction pre) auto

text \<open>
  C7. When the listing succeeds, \<open>findExistingFile\<close> decides between update and creation
  by exact equality of strings between the entries' names and \<open>fileName\<close> (the value it
  returns is what \<open>processFileUpload\<close> hands to \<open>uploadFile\<close>: an id to update, or \<open>null\<close>
  to create). If an entry has the name and no entry before it in the listing has it,
  the result is that entry's id, whatever follows it in the listing, duplicates
  included; if no entry has the name, the result is \<open>null\<close>.
\<close>

theorem findExistingFile_first_match:
  assumes "listDriveFiles c parentFolderId accessToken ''files(id,name)'' = Inr files"
  shows "(\<forall>pre file post.
            files = pre @ file # post \<and> name_file file = fileName
            \<and> (\<forall>g\<in>set pre. name_file g \<noteq> fileName) \<longrightarrow>
            findExistingFile c fileName parentFolderId accessToken
              = (Some (id_file file), [ListFiles parentFolderId ''files(id,name)'']))
       \<and> ((\<forall>g\<in>set files. name_file g \<noteq> fileName) \<longrightarrow>
            findExistingFile c fileName parentFolderId accessToken
              = (None, [ListFiles parentFolderId ''files(id,name)'']))"
proof (intro conjI allI impI)
  fix pre file' post
  assume a: "files = pre @ file' # post \<and> name_file file' = fileName
            \<and> (\<forall>g\<in>set pre. name_file g \<noteq> fileName)"
  then have "filter (\<lambda>file. name_file file = fileName) files
               = file' # filter (\<lambda>file. name_file file = fileName) post"
    using filter_first_match[of pre "\<lambda>file. name_file file = fileName" file' post] by simp
  with assms show "findExistingFile c fileName parentFolderId accessToken
              = (Some (id_file file'), [ListFiles parentFolderId ''files(id,name)''])"
    by (simp add: findExistingFile_def)
next
  assume "\<forall>g\<in>set files. name_file g \<noteq> fileName"
  then have "filter (\<lambda>file. name_file file = fileName) files = []"
    by (simp add: filter_empty_conv)
  with assms show "findExistingFile c fileName parentFolderId accessToken
              = (None, [ListFiles parentFolderId ''files(id,name)''])"
    by (simp add: findExistingFile_def)
qed

theorem findExistingFile_first_match_witness:
  "listDriveFiles tree_client ''C'' ''tok'' ''files(id,name)''
     = Inr ([] @ \<lparr>id_file = ''x'', name_file = ''a.txt'', mimeType_file = Some ''text/plain''\<rparr>
            # [\<lparr>id_file = ''s'', name_file = ''sub'', mimeType_file = Some ''application/vnd.google-apps.folder''\<rparr>,
               \<lparr>id_file = ''y'', name_file = ''A.txt'', mimeType_file = None\<rparr>,
               \<lparr>id_file = ''z'', name_file = ''a.txt'', mimeType_file = None\<rparr>])
   \<and> findExistingFile tree_client ''a.txt'' ''C'' ''tok'' = (Some ''x'', [ListFiles ''C'' ''files(id,name)''])
   \<and> findExistingFile tree_client ''A.txt'' ''C'' ''tok'' = (Some ''y'', [ListFiles ''C'' ''files(id,name)''])
   \<and> findExistingFile tree_client ''a.TXT'' ''C'' ''tok'' = (None, [ListFiles ''C'' ''files(id,name)''])"
proof -
  let ?x = "\<lparr>id_file = ''x'', name_file = ''a.txt'', mimeType_file = Some ''text/plain''\<rparr>"
  let ?s = "\<lparr>id_file = ''s'', name_file = ''sub'', mimeType_file = Some ''application/vnd.google-apps.folder''\<rparr>"
  let ?y = "\<lparr>id_file = ''y'', name_file = ''A.txt'', mimeType_file = None\<rparr>"
  let ?z = "\<lparr>id_file = ''z'', name_file = ''a.txt'', mimeType_file = None\<rparr>"
  have l: "listDriveFiles tree_client ''C'' ''tok'' ''files(id,name)'' = Inr [?x, ?s, ?y, ?z]"
    by (simp add: tree_client_def)
  note th = findExistingFile_first_match[OF l]
  have a: "findExistingFile tree_client ''a.txt'' ''C'' ''tok'' = (Some (id_file ?x), [ListFiles ''C'' ''files(id,name)''])"
    by (rule th[THEN conjunct1, rule_format, of "[]" ?x "[?s, ?y, ?z]"]) simp
  have b: "findExistingFile tree_client ''A.txt'' ''C'' ''tok'' = (Some (id_file ?y), [ListFiles ''C'' ''files(id,name)''])"
    by (rule th[THEN conjunct1, rule_format, of "[?x, ?s]" ?y "[?z]"]) simp
  have c: "findExistingFile tree_client ''a.TXT'' ''C'' ''tok'' = (None, [ListFiles ''C'' ''files(id,name)''])"
    by (rule th[THEN conjunct2, rule_format]) auto
  from l a b c show ?thesis by simp
qed

subsection \<open>A search that fails\<close>

text \<open>
  C3, as the code has it. When the listing call of the search throws, \<open>findExistingFile\<close>
  catches the error and returns \<open>null\<close>, the value it returns when no file has the name;
  no error reaches the caller. \<open>processFileUpload\<close> with \<open>overwrite\<close> true then goes on
  to a creation: after the token and the validation its calls are the failed listing and
  one \<open>POST\<close> with \<open>parents: [parentFolderId]\<close>, and when that request succeeds the result
  is \<open>{ success: true }\<close>.
\<close>

theorem findExistingFile_search_failure:
  assumes "listDriveFiles c parentFolderId accessToken ''files(id,name)'' = Inl e"
  shows "findExistingFile c fileName parentFolderId accessToken
           = (None, [ListFiles parentFolderId ''files(id,name)''])
       \<and> (\<forall>(f::File) folderId credentials defaultFolderId t1 v t2.
            parentFolderId = (if folderId = [] then defaultFolderId else folderId)
            \<and> getAccessToken c credentials = (Inr accessToken, t1)
            \<and> validateFolder c parentFolderId defaultFolderId accessToken = Some (v, t2)
            \<and> valid v \<longrightarrow>
            (\<exists>r request.
               processFileUpload c (Some f) folderId True credentials defaultFolderId
                 = Some (r, t1 @ t2 @ [ListFiles parentFolderId ''files(id,name)'', Upload request])
               \<and> req_method request = POST \<and> req_target request = None
               \<and> req_parents request = Some [parentFolderId]
               \<and> (uploadFetch c request accessToken = Ok \<longrightarrow>
                    r = Inr \<lparr>success = True, error = None, details = None\<rparr>)))"
proof (rule conjI)
  show "\<forall>(f::File) folderId credentials defaultFolderId t1 v t2.
            parentFolderId = (if folderId = [] then defaultFolderId else folderId)
            \<and> getAccessToken c credentials = (Inr accessToken, t1)
            \<and> validateFolder c parentFolderId defaultFolderId accessToken = Some (v, t2)
            \<and> valid v \<longrightarrow>
            (\<exists>r request.
               processFileUpload c (Some f) folderId True credentials defaultFolderId
                 = Some (r, t1 @ t2 @ [ListFiles parentFolderId ''files(id,name)'', Upload request])
               \<and> req_method request = POST \<and> req_target request = None
               \<and> req_parents request = Some [parentFolderId]
               \<and> (uploadFetch c request accessToken = Ok \<longrightarrow>
                    r = Inr \<lparr>success = True, error = None, details = None\<rparr>))"
  proof (intro allI impI)
    fix f :: File and folderId credentials defaultFolderId t1 v t2
    assume a: "parentFolderId = (if folderId = [] then defaultFolderId else folderId)
            \<and> getAccessToken c credentials = (Inr accessToken, t1)
            \<and> validateFolder c parentFolderId defaultFolderId accessToken = Some (v, t2)
            \<and> valid v"
    have s: "findExistingFile c (if name_of f = [] then ''untitled'' else name_of f) parentFolderId accessToken
           = (None, [ListFiles parentFolderId ''files(id,name)''])"
      using assms by (simp add: findExistingFile_def)
    obtain request where rq: "snd (uploadFile c f parentFolderId None accessToken) = [Upload request]"
       "req_method request = POST" "req_target request = None" "req_parents request = Some [parentFolderId]"
       "uploadFetch c request accessToken = Ok \<longrightarrow> fst (uploadFile c f parentFolderId None accessToken) = Inr ()"
      using uploadFile_create[of c f parentFolderId accessToken] by blast
    obtain u where u: "uploadFile c f parentFolderId None accessToken = (u, [Upload request])"
      using rq(1) by (cases "uploadFile c f parentFolderId None accessToken") auto
    have "\<exists>r. processFileUpload c (Some f) folderId True credentials defaultFolderId
                 = Some (r, t1 @ t2 @ [ListFiles parentFolderId ''files(id,name)'', Upload request])
             \<and> (u = Inr () \<longrightarrow> r = Inr \<lparr>success = True, error = None, details = None\<rparr>)"
      using a s u by (cases u) (auto simp add: processFileUpload_def Let_def)
    with rq u show "\<exists>r request.
               processFileUpload c (Some f) folderId True credentials defaultFolderId
                 = Some (r, t1 @ t2 @ [ListFiles parentFolderId ''files(id,name)'', Upload request])
               \<and> req_method request = POST \<and> req_target request = None
               \<and> req_parents request = Some [parentFolderId]
               \<and> (uploadFetch c request accessToken = Ok \<longrightarrow>
                    r = Inr \<lparr>success = True, error = None, details = None\<rparr>)"
      by auto
  qed
qed (use assms in \<open>simp add: findExistingFile_def\<close>)


theorem findExistingFile_search_failure_witness:
  "listDriveFiles tree_client ''R'' ''tok'' ''files(id,name)'' = Inl (Error ''Failed to list files: backend error'')
   \<and> findExistingFile tree_client ''a.txt'' ''R'' ''tok'' = (None, [ListFiles ''R'' ''files(id,name)''])
   \<and> (\<exists>request.
         processFileUpload tree_client (Some demo_file) [] True demo_credentials ''R''
           = Some (Inr \<lparr>success = True, error = None, details = None\<rparr>,
                   [RefreshToken] @ [] @ [ListFiles ''R'' ''files(id,name)'', Upload request])
         \<and> req_method request = POST \<and> req_target request = None \<and> req_parents request = Some [''R''])"
proof -
  have l: "listDriveFiles tree_client ''R'' ''tok'' ''files(id,name)'' = Inl (Error ''Failed to list files: backend error'')"
    by (simp add: tree_client_def)
  note th = findExistingFile_search_failure[OF l]
  have hyp: "''R'' = (if [] = [] then ''R'' else [])
            \<and> getAccessToken tree_client demo_credentials = (Inr ''tok'', [RefreshToken])
            \<and> validateFolder tree_client ''R'' ''R'' ''tok''
                = Some (\<lparr>valid = True, error_v = None, details_v = None\<rparr>, [])
            \<and> valid \<lparr>valid = True, error_v = None, details_v = None\<rparr>"
    by (simp add: tree_eval)
  have ok: "uploadFetch tree_client request ''tok'' = Ok" for request
    by (simp add: tree_client_def)
  have "\<exists>r request.
               processFileUpload tree_client (Some demo_file) [] True demo_credentials ''R''
                 = Some (r, [RefreshToken] @ [] @ [ListFiles ''R'' ''files(id,name)'', Upload request])
               \<and> req_method request = POST \<and> req_target request = None
               \<and> req_parents request = Some [''R'']
               \<and> (uploadFetch tree_client request ''tok'' = Ok \<longrightarrow>
                    r = Inr \<lparr>success = True, error = None, details = None\<rparr>)"
    by (rule th[THEN conjunct2, rule_format, OF hyp])
  with ok have "\<exists>request.
         processFileUpload tree_client (Some demo_file) [] True demo_credentials ''R''
           = Some (Inr \<lparr>success = True, error = None, details = None\<rparr>,
                   [RefreshToken] @ [] @ [ListFiles ''R'' ''files(id,name)'', Upload request])
         \<and> req_method request = POST \<and> req_target request = None \<and> req_parents request = Some [''R'']"
    by blast
  with l th[THEN conjunct1, of "''a.txt''"] show ?thesis by blast
qed

theorem findExistingFile_search_failure_counterexample:
  "listDriveFiles tree_client ''R'' ''tok'' ''files(id,name)'' = Inl (Error ''Failed to list files: backend error'')
   \<and> findExistingFile tree_client ''a.txt'' ''R'' ''tok'' = (None, [ListFiles ''R'' ''files(id,name)''])
   \<and> processFileUpload tree_client (Some demo_file) [] True demo_credentials ''R''
       = Some (Inr \<lparr>success = True, error = None, details = None\<rparr>,
               [RefreshToken, ListFiles ''R'' ''files(id,name)'',
                Upload \<lparr>req_method = POST, req_target = None, req_name = ''a.txt'',
                        req_parents = Some [''R''], req_content_type = ''text/plain''\<rparr>])"
  by (simp add: processFileUpload_def tree_eval)


subsection \<open>No folder id\<close>

lemma validateFolder_default:
  "validateFolder c defaultFolderId defaultFolderId accessToken
     = Some (\<lparr>valid = True, error_v = None, details_v = None\<rparr>, [])"
  by (simp add: validateFolder_def)

lemma getAccessToken_cases:
  "(\<exists>e. getAccessToken c credentials = (Inl e, [RefreshToken]))
   \<or> (\<exists>tok. getAccessToken c credentials = (Inr tok, [RefreshToken]))"
  by (auto simp: getAccessToken_def split: sum.splits error.splits)

lemma processFileUpload_default_folder:
  assumes "getAccessToken c credentials = (Inr tok, t1)"
  shows "\<exists>r request.
           processFileUpload c (Some f) [] overwrite credentials defaultFolderId
             = Some (r, t1 @ (if overwrite then [ListFiles defaultFolderId ''files(id,name)''] else [])
                        @ [Upload request])
           \<and> (req_method request = POST \<longrightarrow> req_parents request = Some [defaultFolderId])"
proof -
  let ?name = "if name_of f = [] then ''untitled'' else name_of f"
  obtain ex t3 where s: "(if overwrite then findExistingFile c ?name defaultFolderId tok else (None, [])) = (ex, t3)"
    by (cases "if overwrite then findExistingFile c ?name defaultFolderId tok else (None, [])")
  have t3: "t3 = (if overwrite then [ListFiles defaultFolderId ''files(id,name)''] else [])"
    using s findExistingFile_calls[of c ?name defaultFolderId tok] by (auto split: if_splits)
  obtain request where rq: "snd (uploadFile c f defaultFolderId ex tok) = [Upload request]"
    "req_method request = POST \<longrightarrow> req_parents request = Some [defaultFolderId]"
    using uploadFile_calls[of c f defaultFolderId ex tok] by blast
  obtain u where u: "uploadFile c f defaultFolderId ex tok = (u, [Upload request])"
    using rq(1) by (cases "uploadFile c f defaultFolderId ex tok") auto
  have "\<exists>r. processFileUpload c (Some f) [] overwrite credentials defaultFolderId
             = Some (r, t1 @ t3 @ [Upload request])"
    using assms s u by (cases u) (simp_all add: processFileUpload_def validateFolder_default)
  with t3 rq(2) show ?thesis by blast
qed

text \<open>
  C9. For the empty folder id \<open>validateFolder\<close> returns \<open>{ valid: true }\<close> and makes no
  call, and so it does for the default folder id itself. An upload with an empty
  \<open>folderId\<close> therefore always returns, makes no lookup of any folder at all, and, when a
  file is given and the token is obtained, goes on to the search (if \<open>overwrite\<close>) in the
  default folder and to the upload; a creation names the default folder as parent.
\<close>

theorem validateFolder_empty_folderId:
  "validateFolder c [] defaultFolderId accessToken
     = Some (\<lparr>valid = True, error_v = None, details_v = None\<rparr>, [])
   \<and> validateFolder c defaultFolderId defaultFolderId accessToken
       = validateFolder c [] defaultFolderId accessToken
   \<and> (\<exists>r t. processFileUpload c file [] overwrite credentials defaultFolderId = Some (r, t)
         \<and> (\<forall>x\<in>set t. \<not> is_lookup x)
         \<and> (\<forall>f tok t1. file = Some f \<and> getAccessToken c credentials = (Inr tok, t1) \<longrightarrow>
              (\<exists>request.
                 t = t1 @ (if overwrite then [ListFiles defaultFolderId ''files(id,name)''] else [])
                        @ [Upload request]
                 \<and> (req_method request = POST \<longrightarrow> req_parents request = Some [defaultFolderId]))))"
proof (intro conjI)
  show "validateFolder c [] defaultFolderId accessToken
     = Some (\<lparr>valid = True, error_v = None, details_v = None\<rparr>, [])"
    by (simp add: validateFolder_def)
  show "validateFolder c defaultFolderId defaultFolderId accessToken
       = validateFolder c [] defaultFolderId accessToken"
    by (simp add: validateFolder_def)
  show "\<exists>r t. processFileUpload c file [] overwrite credentials defaultFolderId = Some (r, t)
         \<and> (\<forall>x\<in>set t. \<not> is_lookup x)
         \<and> (\<forall>f tok t1. file = Some f \<and> getAccessToken c credentials = (Inr tok, t1) \<longrightarrow>
              (\<exists>request.
                 t = t1 @ (if overwrite then [ListFiles defaultFolderId ''files(id,name)''] else [])
                        @ [Upload request]
                 \<and> (req_method request = POST \<longrightarrow> req_parents request = Some [defaultFolderId])))"
  proof (cases "file")
    case None
    then show ?thesis by (simp add: processFileUpload_def)
  next
    case (Some f)
    from getAccessToken_cases[of c credentials] show ?thesis
    proof (elim disjE exE)
      fix e
      assume "getAccessToken c credentials = (Inl e, [RefreshToken])"
      with Some show ?thesis by (simp add: processFileUpload_def)
    next
      fix tok
      assume tk: "getAccessToken c credentials = (Inr tok, [RefreshToken])"
      from processFileUpload_default_folder[OF tk, of f overwrite defaultFolderId]
      obtain r request where run:
        "processFileUpload c (Some f) [] overwrite credentials defaultFolderId
           = Some (r, [RefreshToken] @ (if overwrite then [ListFiles defaultFolderId ''files(id,name)''] else [])
                      @ [Upload request])"
        "req_method request = POST \<longrightarrow> req_parents request = Some [defaultFolderId]"
        by blast
      show ?thesis
      proof (intro exI conjI)
        show "processFileUpload c file [] overwrite credentials defaultFolderId
           = Some (r, [RefreshToken] @ (if overwrite then [ListFiles defaultFolderId ''files(id,name)''] else [])
                      @ [Upload request])"
          using run(1) Some by simp
        show "\<forall>x\<in>set ([RefreshToken] @ (if overwrite then [ListFiles defaultFolderId ''files(id,name)''] else [])
                      @ [Upload request]). \<not> is_lookup x"
          by simp
        show "\<forall>f tok t1. file = Some f \<and> getAccessToken c credentials = (Inr tok, t1) \<longrightarrow>
              (\<exists>request'.
                 [RefreshToken] @ (if overwrite then [ListFiles defaultFolderId ''files(id,name)''] else [])
                      @ [Upload request]
                  = t1 @ (if overwrite then [ListFiles defaultFolderId ''files(id,name)''] else [])
                        @ [Upload request']
                 \<and> (req_method request' = POST \<longrightarrow> req_parents request' = Some [defaultFolderId]))"
          using tk run(2) by auto
      qed
    qed
  qed
qed

theorem validateFolder_empty_folderId_witness:
  "validateFolder tree_client [] ''R'' ''tok'' = Some (\<lparr>valid = True, error_v = None, details_v = None\<rparr>, [])
   \<and> getAccessToken tree_client demo_credentials = (Inr ''tok'', [RefreshToken])
   \<and> (\<exists>r request.
        processFileUpload tree_client (Some demo_file) [] False demo_credentials ''R''
          = Some (r, [RefreshToken, Upload request])
        \<and> \<not> is_lookup RefreshToken \<and> \<not> is_lookup (Upload request))"
proof -
  have tk: "getAccessToken tree_client demo_credentials = (Inr ''tok'', [RefreshToken])"
    by (simp add: tree_eval)
  note th = validateFolder_empty_folderId[of tree_client "''R''" "''tok''" "Some demo_file" False demo_credentials]
  from th obtain r t where run:
    "processFileUpload tree_client (Some demo_file) [] False demo_credentials ''R'' = Some (r, t)"
    "\<forall>x\<in>set t. \<not> is_lookup x"
    "\<forall>f tok t1. Some demo_file = Some f \<and> getAccessToken tree_client demo_credentials = (Inr tok, t1) \<longrightarrow>
       (\<exists>request. t = t1 @ (if False then [ListFiles ''R'' ''files(id,name)''] else []) @ [Upload request]
          \<and> (req_method request = POST \<longrightarrow> req_parents request = Some [''R'']))"
    by blast
  from run(3) tk obtain request where t: "t = [RefreshToken, Upload request]" by fastforce
  with run(1,2) have "\<exists>r request.
        processFileUpload tree_client (Some demo_file) [] False demo_credentials ''R''
          = Some (r, [RefreshToken, Upload request])
        \<and> \<not> is_lookup RefreshToken \<and> \<not> is_lookup (Upload request)"
    by auto
  with th tk show ?thesis by blast
qed



section \<open>Properties of the deletion\<close>

lemma not_folder_iff:
  "not_folder file \<longleftrightarrow> mimeType_file file \<noteq> Some ''application/vnd.google-apps.folder''"
  by (auto simp: not_folder_def split: option.splits)

lemma delete_files_calls:
  "snd (delete_files c tok files attempted k errs) = map (\<lambda>file. DeleteFile (id_file file)) files"
  by (induction files arbitrary: attempted k errs)
     (simp_all add: case_prod_beta split: sum.splits error.splits)

lemma delete_files_counts:
  "fst (fst (delete_files c tok files attempted k errs))
     + length (snd (fst (delete_files c tok files attempted k errs)))
   = k + length errs + length files"
  by (induction files arbitrary: attempted k errs)
     (simp_all add: case_prod_beta split: sum.splits error.splits)

lemma delete_files_all_fail:
  "(\<And>attempted fileId. \<exists>e. deleteDriveFile c attempted fileId tok = Inl e) \<Longrightarrow>
   fst (fst (delete_files c tok files attempted k errs)) = k"
proof (induction files arbitrary: attempted k errs)
  case Nil
  then show ?case by simp
next
  case (Cons fl files)
  obtain e where "deleteDriveFile c attempted (id_file fl) tok = Inl e"
    using Cons.prems by blast
  moreover obtain m where "e = Error m" by (cases e)
  ultimately show ?case
    using Cons.IH[OF Cons.prems] by (simp add: case_prod_beta)
qed

text \<open>
  C10. For a folder that the guard authorizes, once the token is obtained and the
  listing succeeds, \<open>deleteFolderContents\<close> calls \<open>deleteDriveFile\<close> exactly on the
  listed entries whose \<open>mimeType\<close> is not \<open>application/vnd.google-apps.folder\<close>, once
  each and in the order of the listing, and on nothing else. It returns
  \<open>success: true\<close> with no \<open>error\<close>, whatever the deletions answer: the deletions that
  succeed and those that fail are only counted in \<open>message\<close>, and when every deletion
  fails the count of deleted files is zero and the result is still a success.
\<close>

theorem deleteFolderContents_keeps_folders:
  assumes "folderId = Some fid" and "fid \<noteq> []"
    and "getAccessToken c credentials = (Inr accessToken, t1)"
    and "isUnderDefaultFolder c fid defaultFolderId accessToken = Some (True, t2)"
    and "listDriveFiles c fid accessToken ''files(id,name,mimeType)'' = Inr result_files"
  shows "\<exists>r deletedCount failed.
           deleteFolderContents c folderId credentials defaultFolderId
             = Some (Inr r,
                     t1 @ t2 @ [ListFiles fid ''files(id,name,mimeType)'']
                     @ map (\<lambda>file. DeleteFile (id_file file))
                         (filter (\<lambda>file. mimeType_file file \<noteq> Some ''application/vnd.google-apps.folder'')
                            result_files))
           \<and> success r \<and> error r = None
           \<and> deletedCount + failed
               = length (filter (\<lambda>file. mimeType_file file \<noteq> Some ''application/vnd.google-apps.folder'')
                           result_files)
           \<and> message r = ''Deleted '' @ string_of_nat deletedCount @ '' files from folder. ''
                            @ (if failed > 0 then ''Errors: '' @ string_of_nat failed else [])
           \<and> ((\<forall>attempted fileId. \<exists>e. deleteDriveFile c attempted fileId accessToken = Inl e) \<longrightarrow>
                deletedCount = 0)"
proof -
  let ?files = "filter not_folder result_files"
  have files: "?files = filter (\<lambda>file. mimeType_file file \<noteq> Some ''application/vnd.google-apps.folder'') result_files"
    by (rule filter_cong) (simp_all add: not_folder_iff)
  obtain k errs t4 where d: "delete_files c accessToken ?files [] 0 [] = ((k, errs), t4)"
    by (cases "delete_files c accessToken ?files [] 0 []") auto
  have t4: "t4 = map (\<lambda>file. DeleteFile (id_file file)) ?files"
    using delete_files_calls[of c accessToken ?files "[]" 0 "[]"] d by simp
  have cnt: "k + length errs = length ?files"
    using delete_files_counts[of c accessToken ?files "[]" 0 "[]"] d by simp
  have fail: "(\<forall>attempted fileId. \<exists>e. deleteDriveFile c attempted fileId accessToken = Inl e) \<longrightarrow> k = 0"
    using delete_files_all_fail[of c accessToken ?files "[]" 0 "[]"] d by auto
  let ?r = "\<lparr>success = True, error = None, details = None,
             message = ''Deleted '' @ string_of_nat k @ '' files from folder. ''
                        @ (if length errs > 0 then ''Errors: '' @ string_of_nat (length errs) else [])\<rparr>"
  have "deleteFolderContents c folderId credentials defaultFolderId
          = Some (Inr ?r, t1 @ t2 @ [ListFiles fid ''files(id,name,mimeType)''] @ t4)"
    using assms d by (simp add: deleteFolderContents_def Let_def del: string_of_nat.simps)
  with t4 cnt fail files show ?thesis
    by (intro exI[of _ ?r] exI[of _ k] exI[of _ "length errs"]) (simp del: string_of_nat.simps)
qed

theorem deleteFolderContents_keeps_folders_witness:
  "getAccessToken tree_client demo_credentials = (Inr ''tok'', [RefreshToken])
   \<and> isUnderDefaultFolder tree_client ''C'' ''R'' ''tok'' = Some (True, [GetFileInfo ''C'' ''parents''])
   \<and> (\<exists>r. deleteFolderContents tree_client (Some ''C'') demo_credentials ''R''
            = Some (Inr r, [RefreshToken, GetFileInfo ''C'' ''parents'', ListFiles ''C'' ''files(id,name,mimeType)'',
                            DeleteFile ''x'', DeleteFile ''y'', DeleteFile ''z''])
          \<and> success r \<and> error r = None)
   \<and> deleteFolderContents tree_client (Some ''C'') demo_credentials ''R''
       = Some (Inr \<lparr>success = True, error = None, details = None,
                    message = ''Deleted 2 files from folder. Errors: 1''\<rparr>,
               [RefreshToken, GetFileInfo ''C'' ''parents'', ListFiles ''C'' ''files(id,name,mimeType)'',
                DeleteFile ''x'', DeleteFile ''y'', DeleteFile ''z''])"
proof -
  have tk: "getAccessToken tree_client demo_credentials = (Inr ''tok'', [RefreshToken])"
    by (simp add: tree_eval)
  have u: "isUnderDefaultFolder tree_client ''C'' ''R'' ''tok'' = Some (True, [GetFileInfo ''C'' ''parents''])"
    by (simp add: tree_eval)
  have l: "listDriveFiles tree_client ''C'' ''tok'' ''files(id,name,mimeType)''
     = Inr [\<lparr>id_file = ''x'', name_file = ''a.txt'', mimeType_file = Some ''text/plain''\<rparr>,
            \<lparr>id_file = ''s'', name_file = ''sub'', mimeType_file = Some ''application/vnd.google-apps.folder''\<rparr>,
            \<lparr>id_file = ''y'', name_file = ''A.txt'', mimeType_file = None\<rparr>,
            \<lparr>id_file = ''z'', name_file = ''a.txt'', mimeType_file = None\<rparr>]"
    by (simp add: tree_client_def)
  have "\<exists>r. deleteFolderContents tree_client (Some ''C'') demo_credentials ''R''
            = Some (Inr r, [RefreshToken, GetFileInfo ''C'' ''parents'', ListFiles ''C'' ''files(id,name,mimeType)'',
                            DeleteFile ''x'', DeleteFile ''y'', DeleteFile ''z''])
          \<and> success r \<and> error r = None"
    using deleteFolderContents_keeps_folders[OF refl _ tk u l] by auto
  moreover have "deleteFolderContents tree_client (Some ''C'') demo_credentials ''R''
       = Some (Inr \<lparr>success = True, error = None, details = None,
                    message = ''Deleted 2 files from folder. Errors: 1''\<rparr>,
               [RefreshToken, GetFileInfo ''C'' ''parents'', ListFiles ''C'' ''files(id,name,mimeType)'',
                DeleteFile ''x'', DeleteFile ''y'', DeleteFile ''z''])"
    by (simp add: deleteFolderContents_def not_folder_def tree_eval)
  ultimately show ?thesis using tk u by blast
qed


end
